theory Spec2Isabelle
  imports Main
begin

section \<open>The CAIP-10 link stream handler\<close>

text \<open>
  A shallow embedding of \<^verbatim>\<open>Caip10LinkHandler\<close>
  (\<^verbatim>\<open>packages/stream-caip10-link-handler/src/caip10-link-handler.ts\<close>).
  The handler folds genesis, signed and anchor commits into the state of one
  account-to-DID link stream.

  JavaScript objects become records whose optional properties are \<open>option\<close> fields
  (\<open>None\<close> is \<^verbatim>\<open>undefined\<close> or \<^verbatim>\<open>null\<close>); a \<^verbatim>\<open>throw\<close> becomes \<open>Inl\<close> of the
  thrown error. The handler mutates the state object it is given
  (\<^verbatim>\<open>state.log.push\<close>, \<^verbatim>\<open>delete state.next\<close>), so \<open>applySigned\<close>, \<open>applyAnchor\<close> and
  \<open>applyCommit\<close> return a pair: the outcome of the call, and the caller's state object
  as the call leaves it.
\<close>

subsection \<open>Data\<close>

type_synonym cid = string

text \<open>
  The payload of a signed commit (\<^verbatim>\<open>commit.data\<close>) is an object that only the
  external verifier reads.
\<close>

datatype link_payload = LinkPayload string

text \<open>
  Modelled from the spec: the enumerations \<^verbatim>\<open>SignatureStatus\<close>, \<^verbatim>\<open>AnchorStatus\<close> and
  \<^verbatim>\<open>CommitType\<close> are imported from \<^verbatim>\<open>@ceramicnetwork/common\<close>, which is not part of
  the sources; their members are those the data model of the specification lists.
\<close>

datatype signature_status = SignatureStatus_GENESIS | SignatureStatus_SIGNED

datatype anchor_status = NOT_REQUESTED | PENDING | ANCHORED | FAILED

datatype commit_type = CommitType_GENESIS | CommitType_SIGNED | CommitType_ANCHOR

text \<open>\<^verbatim>\<open>Caip10Link.STREAM_TYPE_ID\<close>, a constant of the stream class.\<close>

datatype stream_type = STREAM_TYPE_ID

text \<open>
  The header of a commit, which becomes the metadata of the stream. \<^verbatim>\<open>lastUpdate\<close> is
  the property that \<open>applySigned\<close> adds to the pending metadata.
\<close>

record metadata =
  controllers :: "string list option"
  lastUpdate :: "int option"

text \<open>
  Modelled from the spec: the anchor proof object (\<^verbatim>\<open>AnchorProof\<close> of
  \<^verbatim>\<open>@ceramicnetwork/common\<close>) is \<^verbatim>\<open>{ blockTimestamp, ... }\<close>; the handler reads its
  block timestamp only. \<open>root\<close> stands for the rest of the object.
\<close>

record anchor_proof =
  blockTimestamp :: int
  root :: cid

text \<open>
  Modelled from the spec: the proof that the verifier returns is
  \<^verbatim>\<open>{account|address, chainQualifier, timestamp, did}\<close>; the chain qualifier is the part
  of the account string after \<^verbatim>\<open>@\<close>.
\<close>

record link_proof =
  account :: "string option"
  address :: "string option"
  timestamp :: int
  did :: string

record commit =
  data :: "link_payload option"
  header :: "metadata option"
  proof_ref :: "cid option"

record log_entry =
  entry_cid :: cid
  entry_type :: commit_type

text \<open>The pending update, \<^verbatim>\<open>state.next\<close>.\<close>

record next_state =
  next_content :: "string option"
  next_metadata :: "metadata option"

record stream_state =
  type_id :: stream_type
  content :: "string option"
  next_st :: "next_state option"
  metadata :: metadata
  signature :: signature_status
  anchorStatus :: anchor_status
  anchorProof :: "anchor_proof option"
  anchorScheduledFor :: "int option"
  log :: "log_entry list"

subsection \<open>Errors\<close>

text \<open>
  The handler throws \<^verbatim>\<open>new Error(message)\<close>; the JavaScript runtime throws a
  \<^verbatim>\<open>TypeError\<close> where a property of \<^verbatim>\<open>undefined\<close> is read; a rejection of
  \<^verbatim>\<open>context.ipfs.dag.get\<close> (a timeout or a failed lookup) passes through
  \<open>applyAnchor\<close> as it is.
\<close>

datatype error = Error string | TypeError | DagGetError string

text \<open>The error kinds of the specification are names for these thrown values.\<close>

abbreviation GenesisHasDataError :: error where
  "GenesisHasDataError \<equiv> Error ''Caip10Link genesis commit cannot have data''"

abbreviation GenesisControllersError :: error where
  "GenesisControllersError \<equiv> Error ''Exactly one controller must be specified''"


abbreviation ProofValidationError :: "string \<Rightarrow> error" where
  "ProofValidationError e \<equiv>
     Error (''Error while validating link proof for caip10-link signed commit: '' @ e)"

abbreviation InvalidProofError :: error where
  "InvalidProofError \<equiv> Error ''Invalid proof for signed commit''"

abbreviation StaleProofError :: error where
  "StaleProofError \<equiv> Error ''Invalid commit, proof timestamp too old''"

abbreviation ControllerMismatchError :: error where
  "ControllerMismatchError \<equiv>
     Error (''Address doesn'' @ [CHR 0x27] @ ''t match stream controller'')"

abbreviation AnchorProofUnavailableError :: "string \<Rightarrow> error" where
  "AnchorProofUnavailableError e \<equiv> DagGetError e"

subsection \<open>External collaborators\<close>

text \<open>
  \<^verbatim>\<open>validateLink\<close> of \<^verbatim>\<open>@ceramicnetwork/blockchain-utils-validation\<close>: it throws
  (\<open>Inl\<close> of the error's text), returns \<^verbatim>\<open>null\<close> (\<open>Inr None\<close>) or returns the
  validated proof.
\<close>

type_synonym verifier = "link_payload option \<Rightarrow> string + link_proof option"

text \<open>
  \<^verbatim>\<open>context.ipfs.dag.get(ref, { timeout })\<close>: it rejects (\<open>Inl\<close>) on a timeout or a
  failed lookup, or resolves to an object whose \<^verbatim>\<open>value\<close> is the anchor proof.
\<close>

record ceramic_context =
  ipfs_dag_get :: "cid option \<Rightarrow> nat \<Rightarrow> string + anchor_proof"

definition IPFS_GET_TIMEOUT :: nat where
  "IPFS_GET_TIMEOUT = 60000"

subsection \<open>Strings\<close>

text \<open>
  \<^verbatim>\<open>String.prototype.toLowerCase\<close> on ASCII text, which is what account identifiers
  are made of.
\<close>

definition lower_char :: "char \<Rightarrow> char" where
  "lower_char c =
     (let n = (of_char c :: nat) in if 65 \<le> n \<and> n \<le> 90 then char_of (n + 32) else c)"

definition toLowerCase :: "string \<Rightarrow> string" where
  "toLowerCase s = map lower_char s"

text \<open>\<^verbatim>\<open>s.split(sep)\<close> for a one-character separator: never the empty list.\<close>

fun split :: "char \<Rightarrow> string \<Rightarrow> string list" where
  "split sep [] = [[]]"
| "split sep (c # cs) =
     (if c = sep then [] # split sep cs
      else (case split sep cs of
              [] \<Rightarrow> [[c]]
            | w # ws \<Rightarrow> (c # w) # ws))"

text \<open>
  \<^verbatim>\<open>let [address, chainId] = account.split('@')\<close> followed by
  \<^verbatim>\<open>[address, chainId].join('@')\<close>: the first two segments; a missing segment is
  \<^verbatim>\<open>undefined\<close>, which \<^verbatim>\<open>join\<close> prints as the empty string.
\<close>

definition addressCaip10 :: "string \<Rightarrow> string" where
  "addressCaip10 acct =
     (case split CHR ''@'' acct of
        [] \<Rightarrow> ''@''
      | [addr] \<Rightarrow> addr @ ''@''
      | addr # chainId # _ \<Rightarrow> addr @ ''@'' @ chainId)"

text \<open>Truthiness of an optional string: \<^verbatim>\<open>undefined\<close>, \<^verbatim>\<open>null\<close> and \<^verbatim>\<open>''\<close> are falsy.\<close>

definition truthy :: "string option \<Rightarrow> bool" where
  "truthy v = (case v of None \<Rightarrow> False | Some s \<Rightarrow> s \<noteq> [])"

text \<open>\<^verbatim>\<open>validProof.account || validProof.address\<close>.\<close>

definition proof_account :: "link_proof \<Rightarrow> string option" where
  "proof_account p = (if truthy (account p) then account p else address p)"

subsection \<open>Genesis commits\<close>

text \<open>
  \<^verbatim>\<open>_applyGenesis\<close> (lines 56 to 79): the payload test, then the state object with the
  header as metadata, then the test on \<^verbatim>\<open>state.metadata.controllers\<close>, which throws a
  \<^verbatim>\<open>TypeError\<close> when the commit has no header.
\<close>

definition applyGenesis :: "commit \<Rightarrow> cid \<Rightarrow> error + stream_state" where
  "applyGenesis c cid =
     (if data c \<noteq> None then Inl GenesisHasDataError
      else (case header c of
              None \<Rightarrow> Inl TypeError
            | Some h \<Rightarrow>
                (case controllers h of
                   Some [x] \<Rightarrow>
                     Inr \<lparr> type_id = STREAM_TYPE_ID,
                           content = None,
                           next_st = Some \<lparr> next_content = None, next_metadata = None \<rparr>,
                           metadata = h,
                           signature = SignatureStatus_GENESIS,
                           anchorStatus = NOT_REQUESTED,
                           anchorProof = None,
                           anchorScheduledFor = None,
                           log = [\<lparr> entry_cid = cid, entry_type = CommitType_GENESIS \<rparr>] \<rparr>
                 | _ \<Rightarrow> Inl GenesisControllersError)))"

subsection \<open>Signed commits\<close>

text \<open>
  The condition of the timestamp check, in JavaScript's evaluation order. Reading
  \<^verbatim>\<open>state.anchorProof.blockTimestamp\<close> or \<^verbatim>\<open>state.next.metadata.lastUpdate\<close> through a
  missing object throws; \<^verbatim>\<open>t < undefined\<close> is \<^verbatim>\<open>false\<close>.
\<close>

definition proofTooOld :: "stream_state \<Rightarrow> link_proof \<Rightarrow> error + bool" where
  "proofTooOld s p =
     (if signature s \<noteq> SignatureStatus_GENESIS then
        (if anchorStatus s = ANCHORED then
           (case anchorProof s of
              None \<Rightarrow> Inl TypeError
            | Some ap \<Rightarrow> Inr (timestamp p < blockTimestamp ap))
         else
           (case next_st s of
              None \<Rightarrow> Inl TypeError
            | Some n \<Rightarrow>
                (case next_metadata n of
                   None \<Rightarrow> Inl TypeError
                 | Some m \<Rightarrow>
                     (case lastUpdate m of
                        None \<Rightarrow> Inr False
                      | Some t \<Rightarrow> Inr (timestamp p < t)))))
      else Inr False)"

text \<open>
  The comparison of line 117: \<^verbatim>\<open>account.split\<close> throws when the proof has neither
  account nor address, \<^verbatim>\<open>controllers[0].toLowerCase()\<close> throws when there is no first
  controller. The result is whether the two lower-cased strings differ.
\<close>

definition controllerDiffers :: "stream_state \<Rightarrow> link_proof \<Rightarrow> error + bool" where
  "controllerDiffers s p =
     (case proof_account p of
        None \<Rightarrow> Inl TypeError
      | Some acct \<Rightarrow>
          (case controllers (metadata s) of
             Some (c0 # _) \<Rightarrow> Inr (toLowerCase (addressCaip10 acct) \<noteq> toLowerCase c0)
           | _ \<Rightarrow> Inl TypeError))"

text \<open>The state object after \<^verbatim>\<open>state.log.push({ cid, type })\<close>.\<close>

definition log_push :: "stream_state \<Rightarrow> cid \<Rightarrow> commit_type \<Rightarrow> stream_state" where
  "log_push s cid t = s\<lparr> log := log s @ [\<lparr> entry_cid = cid, entry_type = t \<rparr>] \<rparr>"

text \<open>
  \<^verbatim>\<open>_applySigned\<close> (lines 88 to 133). Every \<^verbatim>\<open>throw\<close> comes before
  \<^verbatim>\<open>state.log.push\<close>; the returned object is a copy of the pushed state with three
  properties replaced, and shares its log with it.
\<close>

definition applySigned ::
  "verifier \<Rightarrow> commit \<Rightarrow> cid \<Rightarrow> stream_state \<Rightarrow> (error + stream_state) \<times> stream_state" where
  "applySigned validateLink c cid s =
     (case validateLink (data c) of
        Inl e \<Rightarrow> (Inl (ProofValidationError e), s)
      | Inr None \<Rightarrow> (Inl InvalidProofError, s)
      | Inr (Some validProof) \<Rightarrow>
          (case proofTooOld s validProof of
             Inl e \<Rightarrow> (Inl e, s)
           | Inr True \<Rightarrow> (Inl StaleProofError, s)
           | Inr False \<Rightarrow>
               (case controllerDiffers s validProof of
                  Inl e \<Rightarrow> (Inl e, s)
                | Inr True \<Rightarrow> (Inl ControllerMismatchError, s)
                | Inr False \<Rightarrow>
                    (let s1 = log_push s cid CommitType_SIGNED
                     in (Inr (s1\<lparr> signature := SignatureStatus_SIGNED,
                                  anchorStatus := NOT_REQUESTED,
                                  next_st := Some \<lparr> next_content = Some (did validProof),
                                                   next_metadata =
                                                     Some ((metadata s1)
                                                       \<lparr> lastUpdate := Some (timestamp validProof) \<rparr>) \<rparr> \<rparr>),
                         s1)))))"

subsection \<open>Anchor commits\<close>

text \<open>
  \<^verbatim>\<open>_applyAnchor\<close> (lines 143 to 162): the fetch, the push, the choice of the content by
  the truthiness of \<^verbatim>\<open>state.next?.content\<close>, the two \<^verbatim>\<open>delete\<close>s on the state object,
  and the returned copy.
\<close>

definition applyAnchor ::
  "ceramic_context \<Rightarrow> commit \<Rightarrow> cid \<Rightarrow> stream_state \<Rightarrow> (error + stream_state) \<times> stream_state" where
  "applyAnchor ctx c cid s =
     (case ipfs_dag_get ctx (proof_ref c) IPFS_GET_TIMEOUT of
        Inl e \<Rightarrow> (Inl (DagGetError e), s)
      | Inr prf \<Rightarrow>
          (let s1 = log_push s cid CommitType_ANCHOR;
               content' = (case next_st s1 of
                             None \<Rightarrow> content s1
                           | Some n \<Rightarrow> if truthy (next_content n) then next_content n
                                       else content s1);
               s2 = s1\<lparr> next_st := None, anchorScheduledFor := None \<rparr>
           in (Inr (s2\<lparr> content := content',
                        anchorStatus := ANCHORED,
                        anchorProof := Some prf \<rparr>),
               s2)))"

subsection \<open>Dispatch\<close>

text \<open>
  \<^verbatim>\<open>applyCommit\<close> (lines 38 to 48): no state, then a truthy \<^verbatim>\<open>commit.proof\<close>, then
  everything else. \<^verbatim>\<open>validateLink\<close> is an import of the module, here the first argument.
\<close>

definition applyCommit ::
  "verifier \<Rightarrow> commit \<Rightarrow> cid \<Rightarrow> ceramic_context \<Rightarrow> stream_state option
     \<Rightarrow> (error + stream_state) \<times> stream_state option" where
  "applyCommit validateLink c cid ctx state =
     (case state of
        None \<Rightarrow> (applyGenesis c cid, None)
      | Some s \<Rightarrow>
          (if proof_ref c \<noteq> None then map_prod id Some (applyAnchor ctx c cid s)
           else map_prod id Some (applySigned validateLink c cid s)))"

subsection \<open>Sequences of commits\<close>

text \<open>
  The caller folds a list of commits into a state: each commit is applied to the state
  that the previous application returned, starting with no state, and the first
  failure ends the run. Every step has its own commit, commit CID and context.
\<close>

type_synonym step = "commit \<times> cid \<times> ceramic_context"

fun applyCommits :: "verifier \<Rightarrow> step list \<Rightarrow> stream_state option \<Rightarrow> error + stream_state option" where
  "applyCommits validateLink [] state = Inr state"
| "applyCommits validateLink ((c, cid, ctx) # rest) state =
     (case fst (applyCommit validateLink c cid ctx state) of
        Inl e \<Rightarrow> Inl e
      | Inr s' \<Rightarrow> applyCommits validateLink rest (Some s'))"

text \<open>The log entry of a commit applied to an existing state, by the test of \<open>applyCommit\<close>.\<close>

definition later_entry :: "step \<Rightarrow> log_entry" where
  "later_entry st =
     (case st of (c, cid, ctx) \<Rightarrow>
        \<lparr> entry_cid = cid,
          entry_type = (if proof_ref c \<noteq> None then CommitType_ANCHOR else CommitType_SIGNED) \<rparr>)"

definition entries :: "step list \<Rightarrow> log_entry list" where
  "entries steps =
     (case steps of
        [] \<Rightarrow> []
      | (c, cid, ctx) # rest \<Rightarrow>
          \<lparr> entry_cid = cid, entry_type = CommitType_GENESIS \<rparr> # map later_entry rest)"

text \<open>The states that successful applications produce, starting from a genesis commit.\<close>

inductive reachable :: "verifier \<Rightarrow> stream_state \<Rightarrow> bool" for validateLink :: verifier where
  genesis: "fst (applyCommit validateLink c cid ctx None) = Inr s \<Longrightarrow> reachable validateLink s"
| step: "reachable validateLink s \<Longrightarrow>
         fst (applyCommit validateLink c cid ctx (Some s)) = Inr s' \<Longrightarrow>
         reachable validateLink s'"

subsection \<open>The commit shapes of the specification\<close>

text \<open>
  This definition follows the words of the specification, not the code: a genesis
  commit is header-only, a signed commit carries a \<^verbatim>\<open>data\<close> proof payload, an anchor
  commit carries a reference to an anchor proof and no direct content.
\<close>

definition spec_recognized_shape :: "commit \<Rightarrow> bool" where
  "spec_recognized_shape c \<longleftrightarrow>
     (header c \<noteq> None \<and> data c = None \<and> proof_ref c = None) \<or>
     (data c \<noteq> None \<and> proof_ref c = None) \<or>
     (proof_ref c \<noteq> None \<and> data c = None \<and> header c = None)"

subsection \<open>Example inputs\<close>

definition ex_header :: metadata where
  "ex_header = \<lparr> controllers = Some [''0xabc@eip155:1''], lastUpdate = None \<rparr>"

definition ex_genesis :: commit where
  "ex_genesis = \<lparr> data = None, header = Some ex_header, proof_ref = None \<rparr>"

text \<open>A signed commit whose payload names the account, the timestamp and the DID.\<close>

definition ex_proof :: "string \<Rightarrow> int \<Rightarrow> string \<Rightarrow> link_proof" where
  "ex_proof acct t d = \<lparr> account = Some acct, address = None, timestamp = t, did = d \<rparr>"

definition ex_signed :: "string \<Rightarrow> commit" where
  "ex_signed name = \<lparr> data = Some (LinkPayload name), header = None, proof_ref = None \<rparr>"

text \<open>
  A verifier that knows five payloads; on anything else it returns \<^verbatim>\<open>null\<close>, and it
  throws when there is no payload.
\<close>

definition ex_validateLink :: verifier where
  "ex_validateLink d =
     (case d of
        None \<Rightarrow> Inl ''no payload''
      | Some (LinkPayload name) \<Rightarrow>
          (if name = ''abc-100'' then Inr (Some (ex_proof ''0xABC@eip155:1'' 100 ''did:example:1''))
           else if name = ''abc-150'' then Inr (Some (ex_proof ''0xabc@eip155:1'' 150 ''did:example:2''))
           else if name = ''abc-200-clear'' then Inr (Some (ex_proof ''0xabc@eip155:1'' 200 []))
           else if name = ''def-100'' then Inr (Some (ex_proof ''0xdef@eip155:1'' 100 ''did:example:1''))
           else if name = ''legacy-100'' then
             Inr (Some \<lparr> account = None, address = Some ''0xabc@eip155:1'', timestamp = 100,
                         did = ''did:example:1'' \<rparr>)
           else Inr None))"

definition ex_anchor_proof :: anchor_proof where
  "ex_anchor_proof = \<lparr> blockTimestamp = 150, root = ''root'' \<rparr>"

definition ex_anchor :: commit where
  "ex_anchor = \<lparr> data = None, header = None, proof_ref = Some ''proof-cid'' \<rparr>"

text \<open>A store that holds one anchor proof and answers within a minute, or not at all.\<close>

definition ex_context :: ceramic_context where
  "ex_context =
     \<lparr> ipfs_dag_get = (\<lambda>r t. if r = Some ''proof-cid'' \<and> 60000 \<le> t then Inr ex_anchor_proof
                              else Inl ''timeout'') \<rparr>"

text \<open>The state after the genesis commit.\<close>

definition ex_state0 :: stream_state where
  "ex_state0 =
     \<lparr> type_id = STREAM_TYPE_ID, content = None,
       next_st = Some \<lparr> next_content = None, next_metadata = None \<rparr>,
       metadata = ex_header, signature = SignatureStatus_GENESIS,
       anchorStatus = NOT_REQUESTED, anchorProof = None, anchorScheduledFor = None,
       log = [\<lparr> entry_cid = ''cid0'', entry_type = CommitType_GENESIS \<rparr>] \<rparr>"

text \<open>The state after the genesis commit and the signed commit \<open>abc-100\<close>.\<close>

definition ex_state1 :: stream_state where
  "ex_state1 =
     \<lparr> type_id = STREAM_TYPE_ID, content = None,
       next_st = Some \<lparr> next_content = Some ''did:example:1'',
                        next_metadata = Some (ex_header\<lparr> lastUpdate := Some 100 \<rparr>) \<rparr>,
       metadata = ex_header, signature = SignatureStatus_SIGNED,
       anchorStatus = NOT_REQUESTED, anchorProof = None, anchorScheduledFor = None,
       log = [\<lparr> entry_cid = ''cid0'', entry_type = CommitType_GENESIS \<rparr>,
              \<lparr> entry_cid = ''cid1'', entry_type = CommitType_SIGNED \<rparr>] \<rparr>"

text \<open>The state after the anchor commit that follows.\<close>

definition ex_state2 :: stream_state where
  "ex_state2 =
     \<lparr> type_id = STREAM_TYPE_ID, content = Some ''did:example:1'',
       next_st = None,
       metadata = ex_header, signature = SignatureStatus_SIGNED,
       anchorStatus = ANCHORED, anchorProof = Some ex_anchor_proof, anchorScheduledFor = None,
       log = [\<lparr> entry_cid = ''cid0'', entry_type = CommitType_GENESIS \<rparr>,
              \<lparr> entry_cid = ''cid1'', entry_type = CommitType_SIGNED \<rparr>,
              \<lparr> entry_cid = ''cid2'', entry_type = CommitType_ANCHOR \<rparr>] \<rparr>"

text \<open>The state after a further signed commit, \<open>abc-200-clear\<close>, whose DID is the empty string.\<close>

definition ex_state3 :: stream_state where
  "ex_state3 =
     \<lparr> type_id = STREAM_TYPE_ID, content = Some ''did:example:1'',
       next_st = Some \<lparr> next_content = Some [],
                        next_metadata = Some (ex_header\<lparr> lastUpdate := Some 200 \<rparr>) \<rparr>,
       metadata = ex_header, signature = SignatureStatus_SIGNED,
       anchorStatus = NOT_REQUESTED, anchorProof = Some ex_anchor_proof,
       anchorScheduledFor = None,
       log = [\<lparr> entry_cid = ''cid0'', entry_type = CommitType_GENESIS \<rparr>,
              \<lparr> entry_cid = ''cid1'', entry_type = CommitType_SIGNED \<rparr>,
              \<lparr> entry_cid = ''cid2'', entry_type = CommitType_ANCHOR \<rparr>,
              \<lparr> entry_cid = ''cid3'', entry_type = CommitType_SIGNED \<rparr>] \<rparr>"

text \<open>A commit that carries both a payload and a reference to an anchor proof.\<close>

definition ex_both :: commit where
  "ex_both = \<lparr> data = Some (LinkPayload ''def-100''), header = None,
               proof_ref = Some ''proof-cid'' \<rparr>"

section \<open>Properties\<close>

lemmas ex_defs = ex_header_def ex_genesis_def ex_proof_def ex_signed_def ex_validateLink_def
  ex_anchor_proof_def ex_anchor_def ex_context_def ex_state0_def ex_state1_def ex_state2_def
  ex_state3_def ex_both_def

subsection \<open>Genesis commits\<close>

lemma applyGenesis_no_header:
  "data c = None \<Longrightarrow> header c = None \<Longrightarrow> applyGenesis c cid = Inl TypeError"
  by (simp add: applyGenesis_def)




subsection \<open>Signed commits\<close>

lemma lower_example:
  "toLowerCase (addressCaip10 ''0xABC@eip155:1'') = toLowerCase ''0xabc@eip155:1''"
  by code_simp

lemma lower_same:
  "toLowerCase (addressCaip10 ''0xabc@eip155:1'') = toLowerCase ''0xabc@eip155:1''"
  by code_simp

lemma lower_other:
  "toLowerCase (addressCaip10 ''0xdef@eip155:1'') \<noteq> toLowerCase ''0xabc@eip155:1''"
  by code_simp

lemma proofTooOld_True_iff:
  "proofTooOld s p = Inr True \<longleftrightarrow>
     signature s \<noteq> SignatureStatus_GENESIS \<and>
     ((anchorStatus s = ANCHORED \<and>
       (\<exists>ap. anchorProof s = Some ap \<and> timestamp p < blockTimestamp ap)) \<or>
      (anchorStatus s \<noteq> ANCHORED \<and>
       (\<exists>n m t. next_st s = Some n \<and> next_metadata n = Some m \<and> lastUpdate m = Some t \<and>
                timestamp p < t)))"
  by (auto simp: proofTooOld_def split: option.splits)

lemma proofTooOld_Inl: "proofTooOld s p = Inl e \<Longrightarrow> e = TypeError"
  by (auto simp: proofTooOld_def split: option.splits if_splits)

lemma controllerDiffers_Inl: "controllerDiffers s p = Inl e \<Longrightarrow> e = TypeError"
  by (auto simp: controllerDiffers_def split: option.splits list.splits)

lemma applySigned_stale:
  "validateLink (data c) = Inr (Some p) \<Longrightarrow>
   fst (applySigned validateLink c cid s) = Inl StaleProofError \<longleftrightarrow> proofTooOld s p = Inr True"
  by (auto simp: applySigned_def Let_def split: sum.splits bool.splits
           dest: proofTooOld_Inl controllerDiffers_Inl)

text \<open>
  C1. For a signed commit whose proof the verifier accepts, the application fails with
  the message \<^verbatim>\<open>Invalid commit, proof timestamp too old\<close> (the specification's
  \<^verbatim>\<open>StaleProofError\<close>) exactly when the signature status of the state is not \<^verbatim>\<open>GENESIS\<close>
  and either the state is \<^verbatim>\<open>ANCHORED\<close> and the proof's timestamp is strictly less than
  the block timestamp of the stored anchor proof, or the state is not \<^verbatim>\<open>ANCHORED\<close> and
  the proof's timestamp is strictly less than \<^verbatim>\<open>lastUpdate\<close> of the pending update's
  metadata. The comparison is strict, so a timestamp equal to the checkpoint passes;
  on an anchored state a timestamp at or after the anchor's block timestamp succeeds
  when the proof's account matches the controller.
\<close>

theorem applySigned_stale_iff:
  "validateLink (data c) = Inr (Some p) \<Longrightarrow>
   (fst (applySigned validateLink c cid s) = Inl StaleProofError \<longleftrightarrow>
      signature s \<noteq> SignatureStatus_GENESIS \<and>
      ((anchorStatus s = ANCHORED \<and>
        (\<exists>ap. anchorProof s = Some ap \<and> timestamp p < blockTimestamp ap)) \<or>
       (anchorStatus s \<noteq> ANCHORED \<and>
        (\<exists>n m t. next_st s = Some n \<and> next_metadata n = Some m \<and> lastUpdate m = Some t \<and>
                 timestamp p < t)))) \<and>
   (anchorStatus s = ANCHORED \<and> anchorProof s = Some ap \<and> blockTimestamp ap \<le> timestamp p \<and>
    proof_account p = Some acct \<and> controllers (metadata s) = Some [ctl] \<and>
    toLowerCase (addressCaip10 acct) = toLowerCase ctl \<longrightarrow>
      \<not> isl (fst (applySigned validateLink c cid s)))"
proof (intro conjI impI)
  assume v: "validateLink (data c) = Inr (Some p)"
  show "fst (applySigned validateLink c cid s) = Inl StaleProofError \<longleftrightarrow>
      signature s \<noteq> SignatureStatus_GENESIS \<and>
      ((anchorStatus s = ANCHORED \<and>
        (\<exists>ap. anchorProof s = Some ap \<and> timestamp p < blockTimestamp ap)) \<or>
       (anchorStatus s \<noteq> ANCHORED \<and>
        (\<exists>n m t. next_st s = Some n \<and> next_metadata n = Some m \<and> lastUpdate m = Some t \<and>
                 timestamp p < t)))"
    using applySigned_stale [of validateLink c p cid s, OF v] proofTooOld_True_iff [of s p] by simp
next
  assume v: "validateLink (data c) = Inr (Some p)"
  assume h: "anchorStatus s = ANCHORED \<and> anchorProof s = Some ap \<and>
    blockTimestamp ap \<le> timestamp p \<and>
    proof_account p = Some acct \<and> controllers (metadata s) = Some [ctl] \<and>
    toLowerCase (addressCaip10 acct) = toLowerCase ctl"
  then have "proofTooOld s p = Inr False"
    by (simp add: proofTooOld_def)
  moreover from h have "controllerDiffers s p = Inr False"
    by (simp add: controllerDiffers_def)
  ultimately show "\<not> isl (fst (applySigned validateLink c cid s))"
    using v by (simp add: applySigned_def Let_def)
qed

theorem applySigned_stale_iff_witness:
  "fst (applySigned ex_validateLink (ex_signed ''abc-100'') ''cid3'' ex_state2) = Inl StaleProofError \<and>
   fst (applySigned ex_validateLink (ex_signed ''abc-150'') ''cid3'' ex_state2) \<noteq> Inl StaleProofError \<and>
   \<not> isl (fst (applySigned ex_validateLink (ex_signed ''abc-150'') ''cid3'' ex_state2))"
  using
    applySigned_stale_iff [of ex_validateLink "ex_signed ''abc-100''"
      "ex_proof ''0xABC@eip155:1'' 100 ''did:example:1''" "''cid3''" ex_state2]
    applySigned_stale_iff [of ex_validateLink "ex_signed ''abc-150''"
      "ex_proof ''0xabc@eip155:1'' 150 ''did:example:2''" "''cid3''" ex_state2
      ex_anchor_proof "''0xabc@eip155:1''" "''0xabc@eip155:1''"]
    lower_same
  by (simp add: ex_defs proof_account_def truthy_def)


lemma applySigned_failure:
  "fst (applySigned validateLink c cid s) = Inl e \<Longrightarrow> snd (applySigned validateLink c cid s) = s"
  by (auto simp: applySigned_def Let_def split: sum.splits option.splits bool.splits)

lemma applyAnchor_failure:
  "fst (applyAnchor ctx c cid s) = Inl e \<Longrightarrow> snd (applyAnchor ctx c cid s) = s"
  by (auto simp: applyAnchor_def Let_def split: sum.splits)

lemma applySigned_mutates_on_success:
  "fst (applySigned validateLink c cid s) = Inr s' \<Longrightarrow>
   snd (applySigned validateLink c cid s) = log_push s cid CommitType_SIGNED"
  by (auto simp: applySigned_def Let_def split: sum.splits option.splits bool.splits)

text \<open>
  C2. Whenever \<open>applyCommit\<close> fails, with whatever error, the state object passed in is
  as it was before the call: its log and every other field are unchanged. (A
  successful call does change it, see \<open>applySigned_mutates_on_success\<close>.)
\<close>

theorem applyCommit_failure_keeps_state:
  "fst (applyCommit validateLink c cid ctx state) = Inl e \<Longrightarrow>
   snd (applyCommit validateLink c cid ctx state) = state"
  by (cases state)
     (auto simp: applyCommit_def dest: applySigned_failure applyAnchor_failure)

theorem applyCommit_failure_keeps_state_witness:
  "fst (applyCommit ex_validateLink (ex_signed ''def-100'') ''cid1'' ex_context (Some ex_state0)) =
     Inl ControllerMismatchError \<and>
   snd (applyCommit ex_validateLink (ex_signed ''def-100'') ''cid1'' ex_context (Some ex_state0)) =
     Some ex_state0"
proof -
  have f: "fst (applyCommit ex_validateLink (ex_signed ''def-100'') ''cid1'' ex_context
             (Some ex_state0)) = Inl ControllerMismatchError"
    using lower_other
    by (simp add: applyCommit_def applySigned_def proofTooOld_def controllerDiffers_def
        proof_account_def truthy_def ex_defs)
  from applyCommit_failure_keeps_state [OF f] f show ?thesis by simp
qed

text \<open>
  C3. A signed commit that passes the proof verification, the timestamp check and the
  controller comparison returns the prior state with \<^verbatim>\<open>{cid, SIGNED}\<close> appended to the
  log, signature status \<^verbatim>\<open>SIGNED\<close>, anchor status \<^verbatim>\<open>NOT_REQUESTED\<close> and the pending
  update \<^verbatim>\<open>{content: did of the proof, metadata: the prior metadata with lastUpdate
  set to the proof's timestamp}\<close>; its content is the prior content.
\<close>

theorem applySigned_success_state:
  "validateLink (data c) = Inr (Some p) \<Longrightarrow>
   proofTooOld s p = Inr False \<Longrightarrow>
   controllerDiffers s p = Inr False \<Longrightarrow>
   fst (applySigned validateLink c cid s) =
     Inr (s\<lparr> log := log s @ [\<lparr> entry_cid = cid, entry_type = CommitType_SIGNED \<rparr>],
             signature := SignatureStatus_SIGNED,
             anchorStatus := NOT_REQUESTED,
             next_st := Some \<lparr> next_content = Some (did p),
                              next_metadata = Some ((metadata s)\<lparr> lastUpdate := Some (timestamp p) \<rparr>) \<rparr> \<rparr>) \<and>
   map_sum id content (fst (applySigned validateLink c cid s)) = Inr (content s)"
  by (simp add: applySigned_def Let_def log_push_def)

theorem applySigned_success_state_witness:
  "fst (applySigned ex_validateLink (ex_signed ''abc-100'') ''cid1'' ex_state0) = Inr ex_state1"
proof -
  have v: "ex_validateLink (data (ex_signed ''abc-100'')) =
      Inr (Some (ex_proof ''0xABC@eip155:1'' 100 ''did:example:1''))"
    by (simp add: ex_defs)
  have t: "proofTooOld ex_state0 (ex_proof ''0xABC@eip155:1'' 100 ''did:example:1'') = Inr False"
    by (simp add: proofTooOld_def ex_defs)
  have m: "controllerDiffers ex_state0 (ex_proof ''0xABC@eip155:1'' 100 ''did:example:1'') = Inr False"
    using lower_example
    by (simp add: controllerDiffers_def proof_account_def truthy_def ex_defs)
  from applySigned_success_state [where validateLink = ex_validateLink
      and c = "ex_signed ''abc-100''" and cid = "''cid1''", OF v t m]
  show ?thesis
    by (simp add: ex_defs)
qed


lemma split_no_sep: "sep \<notin> set w \<Longrightarrow> split sep w = [w]"
  by (induction w) auto

lemma split_at_sep: "sep \<notin> set a \<Longrightarrow> split sep (a @ sep # b) = a # split sep b"
  by (induction a) auto

lemma addressCaip10_wellformed:
  "CHR ''@'' \<notin> set addr \<Longrightarrow> CHR ''@'' \<notin> set chain \<Longrightarrow>
   addressCaip10 (addr @ ''@'' @ chain) = addr @ ''@'' @ chain"
  by (simp add: addressCaip10_def split_at_sep split_no_sep)

lemma addressCaip10_no_chain:
  "CHR ''@'' \<notin> set addr \<Longrightarrow> addressCaip10 addr = addr @ ''@''"
  by (simp add: addressCaip10_def split_no_sep)

lemma addressCaip10_cut:
  "CHR ''@'' \<notin> set addr \<Longrightarrow> CHR ''@'' \<notin> set chain \<Longrightarrow>
   addressCaip10 (addr @ ''@'' @ chain @ ''@'' @ rest) = addr @ ''@'' @ chain"
  by (simp add: addressCaip10_def split_at_sep)

lemma length_toLowerCase: "length (toLowerCase s) = length s"
  by (simp add: toLowerCase_def)

lemma toLowerCase_nth:
  "i < length s \<Longrightarrow>
   (of_char (toLowerCase s ! i) :: nat) =
     (if 65 \<le> (of_char (s ! i) :: nat) \<and> (of_char (s ! i) :: nat) \<le> 90
      then of_char (s ! i) + 32 else of_char (s ! i))"
  by (simp add: toLowerCase_def lower_char_def Let_def)

lemma lower_cut:
  "toLowerCase (addressCaip10 ''0xABC@eip155:1@x'') = toLowerCase ''0xabc@eip155:1''"
  by code_simp

lemma lower_no_chain:
  "toLowerCase (addressCaip10 ''0xABC'') \<noteq> toLowerCase ''0xabc''"
  by code_simp

lemma proof_account_empty: "account p = Some [] \<Longrightarrow> proof_account p = address p"
  by (simp add: proof_account_def truthy_def)

lemma proof_account_read:
  "(\<exists>a. account p = Some a \<and> a \<noteq> [] \<and> acct = a) \<or>
   ((account p = None \<or> account p = Some []) \<and> address p = Some acct) \<Longrightarrow>
   proof_account p = Some acct"
  by (auto simp: proof_account_def truthy_def)

text \<open>
  C6. A signed commit reaches the controller comparison when its proof is accepted and
  not too old, the proof names an account and the state has a first controller. The
  account is the proof's \<^verbatim>\<open>account\<close> when that is a non-empty string, and its \<^verbatim>\<open>address\<close>
  otherwise. The application then fails with the message
  \<^verbatim>\<open>Address doesn't match stream controller\<close> (the specification's
  \<^verbatim>\<open>ControllerMismatchError\<close>) exactly when the lower-cased normalised account differs
  from the lower-cased controller, and succeeds otherwise.

  The normalised account is the first two \<^verbatim>\<open>@\<close>-separated segments of the account joined
  by \<^verbatim>\<open>@\<close>: \<^verbatim>\<open>address@chainId\<close> is its own normal form, an account without \<^verbatim>\<open>@\<close> gets an
  empty chain qualifier (\<^verbatim>\<open>address@\<close>), and segments after the second are dropped.
  Lower-casing keeps the length and replaces each of the letters \<^verbatim>\<open>A\<close> to \<^verbatim>\<open>Z\<close> (codes
  65 to 90) by the letter 32 codes later, leaving every other character as it is. So
  \<^verbatim>\<open>0xABC@eip155:1\<close> matches the controller \<^verbatim>\<open>0xabc@eip155:1\<close>.
\<close>

theorem applySigned_controller_check:
  "validateLink (data c) = Inr (Some p) \<Longrightarrow>
   proofTooOld s p = Inr False \<Longrightarrow>
   (\<exists>a. account p = Some a \<and> a \<noteq> [] \<and> acct = a) \<or>
   ((account p = None \<or> account p = Some []) \<and> address p = Some acct) \<Longrightarrow>
   controllers (metadata s) = Some (ctl # others) \<Longrightarrow>
   (fst (applySigned validateLink c cid s) = Inl ControllerMismatchError \<longleftrightarrow>
      toLowerCase (addressCaip10 acct) \<noteq> toLowerCase ctl) \<and>
   (toLowerCase (addressCaip10 acct) = toLowerCase ctl \<longrightarrow>
      \<not> isl (fst (applySigned validateLink c cid s))) \<and>
   (\<forall>addr. CHR ''@'' \<notin> set addr \<longrightarrow> addressCaip10 addr = addr @ ''@'') \<and>
   (\<forall>addr chain. CHR ''@'' \<notin> set addr \<and> CHR ''@'' \<notin> set chain \<longrightarrow>
      addressCaip10 (addr @ ''@'' @ chain) = addr @ ''@'' @ chain) \<and>
   (\<forall>addr chain rest. CHR ''@'' \<notin> set addr \<and> CHR ''@'' \<notin> set chain \<longrightarrow>
      addressCaip10 (addr @ ''@'' @ chain @ ''@'' @ rest) = addr @ ''@'' @ chain) \<and>
   (\<forall>x. length (toLowerCase x) = length x) \<and>
   (\<forall>x i. i < length x \<longrightarrow>
      (of_char (toLowerCase x ! i) :: nat) =
        (if 65 \<le> (of_char (x ! i) :: nat) \<and> (of_char (x ! i) :: nat) \<le> 90
         then of_char (x ! i) + 32 else of_char (x ! i))) \<and>
   toLowerCase (addressCaip10 ''0xABC@eip155:1'') = toLowerCase ''0xabc@eip155:1''"
proof (intro conjI)
  assume v: "validateLink (data c) = Inr (Some p)"
    and t: "proofTooOld s p = Inr False"
    and a: "(\<exists>a. account p = Some a \<and> a \<noteq> [] \<and> acct = a) \<or>
      ((account p = None \<or> account p = Some []) \<and> address p = Some acct)"
    and k: "controllers (metadata s) = Some (ctl # others)"
  have d: "controllerDiffers s p = Inr (toLowerCase (addressCaip10 acct) \<noteq> toLowerCase ctl)"
    using proof_account_read [OF a] k by (simp add: controllerDiffers_def)
  show "fst (applySigned validateLink c cid s) = Inl ControllerMismatchError \<longleftrightarrow>
      toLowerCase (addressCaip10 acct) \<noteq> toLowerCase ctl"
    using v t d
    by (cases "toLowerCase (addressCaip10 acct) = toLowerCase ctl")
       (simp_all add: applySigned_def Let_def)
  show "toLowerCase (addressCaip10 acct) = toLowerCase ctl \<longrightarrow>
      \<not> isl (fst (applySigned validateLink c cid s))"
    using v t d
    by (cases "toLowerCase (addressCaip10 acct) = toLowerCase ctl")
       (simp_all add: applySigned_def Let_def)
  show "\<forall>addr. CHR ''@'' \<notin> set addr \<longrightarrow> addressCaip10 addr = addr @ ''@''"
    using addressCaip10_no_chain by blast
  show "\<forall>addr chain. CHR ''@'' \<notin> set addr \<and> CHR ''@'' \<notin> set chain \<longrightarrow>
      addressCaip10 (addr @ ''@'' @ chain) = addr @ ''@'' @ chain"
    using addressCaip10_wellformed by blast
  show "\<forall>addr chain rest. CHR ''@'' \<notin> set addr \<and> CHR ''@'' \<notin> set chain \<longrightarrow>
      addressCaip10 (addr @ ''@'' @ chain @ ''@'' @ rest) = addr @ ''@'' @ chain"
    using addressCaip10_cut by blast
  show "\<forall>x. length (toLowerCase x) = length x"
    by (simp add: length_toLowerCase)
  show "\<forall>x i. i < length x \<longrightarrow>
      (of_char (toLowerCase x ! i) :: nat) =
        (if 65 \<le> (of_char (x ! i) :: nat) \<and> (of_char (x ! i) :: nat) \<le> 90
         then of_char (x ! i) + 32 else of_char (x ! i))"
    using toLowerCase_nth by blast
  show "toLowerCase (addressCaip10 ''0xABC@eip155:1'') = toLowerCase ''0xabc@eip155:1''"
    by (rule lower_example)
qed

theorem applySigned_controller_check_witness:
  "\<not> isl (fst (applySigned ex_validateLink (ex_signed ''abc-100'') ''cid1'' ex_state0)) \<and>
   \<not> isl (fst (applySigned ex_validateLink (ex_signed ''legacy-100'') ''cid1'' ex_state0)) \<and>
   fst (applySigned ex_validateLink (ex_signed ''def-100'') ''cid1'' ex_state0) =
     Inl ControllerMismatchError \<and>
   \<not> isl (fst (applySigned
     (\<lambda>d. Inr (Some (ex_proof ''0xABC@eip155:1@x'' 100 ''did:example:1'')))
     (ex_signed ''any'') ''cid1'' ex_state0)) \<and>
   fst (applySigned
     (\<lambda>d. Inr (Some (ex_proof ''0xABC'' 100 ''did:example:1'')))
     (ex_signed ''any'') ''cid1'' (ex_state0\<lparr> metadata := \<lparr> controllers = Some [''0xabc''],
                                                          lastUpdate = None \<rparr> \<rparr>)) =
     Inl ControllerMismatchError"
proof -
  have t: "proofTooOld ex_state0 q = Inr False" for q
    by (simp add: proofTooOld_def ex_defs)
  have t': "proofTooOld (ex_state0\<lparr> metadata := m \<rparr>) q = Inr False" for q m
    by (simp add: proofTooOld_def ex_defs)
  have k: "controllers (metadata ex_state0) = Some (''0xabc@eip155:1'' # [])"
    by (simp add: ex_defs)
  have k': "controllers (metadata (ex_state0\<lparr> metadata := \<lparr> controllers = Some [''0xabc''],
      lastUpdate = None \<rparr> \<rparr>)) = Some (''0xabc'' # [])"
    by simp
  have v1: "ex_validateLink (data (ex_signed ''abc-100'')) =
      Inr (Some (ex_proof ''0xABC@eip155:1'' 100 ''did:example:1''))"
    by (simp add: ex_defs)
  have v2: "ex_validateLink (data (ex_signed ''legacy-100'')) =
      Inr (Some \<lparr> account = None, address = Some ''0xabc@eip155:1'', timestamp = 100,
                  did = ''did:example:1'' \<rparr>)"
    by (simp add: ex_defs)
  have a2: "(\<exists>a. account \<lparr> account = None, address = Some ''0xabc@eip155:1'', timestamp = 100,
                  did = ''did:example:1'' \<rparr> = Some a \<and> a \<noteq> [] \<and> ''0xabc@eip155:1'' = a) \<or>
      ((account \<lparr> account = None, address = Some ''0xabc@eip155:1'', timestamp = 100,
                  did = ''did:example:1'' \<rparr> = None \<or>
        account \<lparr> account = None, address = Some ''0xabc@eip155:1'', timestamp = 100,
                  did = ''did:example:1'' \<rparr> = Some []) \<and>
       address \<lparr> account = None, address = Some ''0xabc@eip155:1'', timestamp = 100,
                  did = ''did:example:1'' \<rparr> = Some ''0xabc@eip155:1'')"
    by simp
  have v3: "ex_validateLink (data (ex_signed ''def-100'')) =
      Inr (Some (ex_proof ''0xdef@eip155:1'' 100 ''did:example:1''))"
    by (simp add: ex_defs)
  have a: "(\<exists>a. account (ex_proof x n d) = Some a \<and> a \<noteq> [] \<and> x = a) \<or>
      ((account (ex_proof x n d) = None \<or> account (ex_proof x n d) = Some []) \<and>
       address (ex_proof x n d) = Some x)" if "x \<noteq> []" for x n d
    using that by (simp add: ex_proof_def)
  have v4: "(\<lambda>d. Inr (Some (ex_proof x 100 ''did:example:1''))) (data (ex_signed ''any'')) =
      Inr (Some (ex_proof x 100 ''did:example:1''))" for x :: string
    by simp
  from applySigned_controller_check [where validateLink = ex_validateLink
      and c = "ex_signed ''abc-100''" and cid = "''cid1''", OF v1 t a k]
    applySigned_controller_check [where validateLink = ex_validateLink
      and c = "ex_signed ''legacy-100''" and cid = "''cid1''", OF v2 t a2 k]
    applySigned_controller_check [where validateLink = ex_validateLink
      and c = "ex_signed ''def-100''" and cid = "''cid1''", OF v3 t a k]
    applySigned_controller_check [where
      validateLink = "\<lambda>d. Inr (Some (ex_proof ''0xABC@eip155:1@x'' 100 ''did:example:1''))"
      and c = "ex_signed ''any''" and cid = "''cid1''", OF v4 t a k]
    applySigned_controller_check [where
      validateLink = "\<lambda>d. Inr (Some (ex_proof ''0xABC'' 100 ''did:example:1''))"
      and c = "ex_signed ''any''" and cid = "''cid1''", OF v4 t' a k']
    lower_same lower_other lower_cut lower_no_chain
  show ?thesis by simp
qed

subsection \<open>Anchor commits\<close>

text \<open>
  C4, as amended. An anchor commit whose proof fetch returns \<open>P\<close> returns the prior state
  with \<^verbatim>\<open>{cid, ANCHOR}\<close> appended to the log, the pending update and the
  anchor-scheduling marker removed, anchor status \<^verbatim>\<open>ANCHORED\<close> and anchor proof \<open>P\<close>.
  Its content is the content of the prior pending update when that is a non-empty
  string, and the prior content otherwise: the code tests \<^verbatim>\<open>state.next?.content\<close> for
  truthiness, so a pending content that is the empty string is not promoted.
\<close>

theorem applyAnchor_success_state:
  "ipfs_dag_get ctx (proof_ref c) IPFS_GET_TIMEOUT = Inr P \<Longrightarrow>
   fst (applyAnchor ctx c cid s) =
     Inr (s\<lparr> log := log s @ [\<lparr> entry_cid = cid, entry_type = CommitType_ANCHOR \<rparr>],
             content := (case next_st s of
                           None \<Rightarrow> content s
                         | Some n \<Rightarrow>
                             (case next_content n of
                                None \<Rightarrow> content s
                              | Some x \<Rightarrow> if x = [] then content s else Some x)),
             next_st := None,
             anchorScheduledFor := None,
             anchorStatus := ANCHORED,
             anchorProof := Some P \<rparr>)"
  by (simp add: applyAnchor_def Let_def log_push_def truthy_def split: option.splits)

theorem applyAnchor_success_state_witness:
  "fst (applyAnchor ex_context ex_anchor ''cid2'' ex_state1) = Inr ex_state2"
proof -
  have g: "ipfs_dag_get ex_context (proof_ref ex_anchor) IPFS_GET_TIMEOUT = Inr ex_anchor_proof"
    by (simp add: ex_defs IPFS_GET_TIMEOUT_def)
  from applyAnchor_success_state [where ctx = ex_context and c = ex_anchor, OF g,
      of "''cid2''" ex_state1]
  show ?thesis by (simp add: ex_defs)
qed

text \<open>
  C4 as stated fails where the pending content is present and empty. The state
  \<open>ex_state3\<close> has the content \<^verbatim>\<open>did:example:1\<close> and the pending content \<^verbatim>\<open>''\<close>, left by
  a signed commit whose proof has an empty DID; the anchor commit keeps
  \<^verbatim>\<open>did:example:1\<close>.
\<close>

theorem applyAnchor_empty_pending_counterexample:
  "ipfs_dag_get ex_context (proof_ref ex_anchor) IPFS_GET_TIMEOUT = Inr ex_anchor_proof \<and>
   map_option next_content (next_st ex_state3) = Some (Some []) \<and>
   map_sum id content (fst (applyAnchor ex_context ex_anchor ''cid4'' ex_state3)) \<noteq>
     Inr (Some []) \<and>
   map_sum id content (fst (applyAnchor ex_context ex_anchor ''cid4'' ex_state3)) =
     Inr (Some ''did:example:1'')"
  by (simp add: applyAnchor_def Let_def log_push_def truthy_def IPFS_GET_TIMEOUT_def ex_defs)

lemma applyAnchor_result:
  "fst (applyAnchor ctx c cid s) = Inl e \<longleftrightarrow>
     (\<exists>m. ipfs_dag_get ctx (proof_ref c) IPFS_GET_TIMEOUT = Inl m \<and> e = DagGetError m)"
  by (cases "ipfs_dag_get ctx (proof_ref c) IPFS_GET_TIMEOUT")
     (auto simp: applyAnchor_def Let_def)

lemma applyAnchor_returns:
  "ipfs_dag_get ctx (proof_ref c) IPFS_GET_TIMEOUT = Inr P \<Longrightarrow>
   \<not> isl (fst (applyAnchor ctx c cid s))"
  by (simp add: applyAnchor_def Let_def)

lemma applyAnchor_same_fetch:
  "ipfs_dag_get ctx' (proof_ref c) IPFS_GET_TIMEOUT = ipfs_dag_get ctx (proof_ref c) IPFS_GET_TIMEOUT \<Longrightarrow>
   applyAnchor ctx' c cid s = applyAnchor ctx c cid s"
  by (simp add: applyAnchor_def)

lemma applyCommit_anchor:
  "proof_ref c = Some r \<Longrightarrow>
   applyCommit validateLink c cid ctx (Some s) = map_prod id Some (applyAnchor ctx c cid s)"
  by (simp add: applyCommit_def)
text \<open>
  C7. An anchor commit (a commit with a proof reference \<open>r\<close>, applied to an existing
  state) fetches the anchor proof with \<^verbatim>\<open>context.ipfs.dag.get(r, { timeout: 60000 })\<close>,
  sixty seconds in milliseconds, and its outcome depends on the context through that
  one call only. The application fails exactly when the fetch fails, with the error
  of the fetch (the specification's \<^verbatim>\<open>AnchorProofUnavailableError\<close>); when the fetch
  returns a value the application succeeds, whatever the value, the commit and the
  prior state are.
\<close>

theorem applyAnchor_fetch:
  "proof_ref c = Some r \<Longrightarrow>
   (\<forall>e. (fst (applyCommit validateLink c cid ctx (Some s)) = Inl e) \<longleftrightarrow>
        (\<exists>m. ipfs_dag_get ctx (Some r) 60000 = Inl m \<and> e = AnchorProofUnavailableError m)) \<and>
   (\<forall>P. ipfs_dag_get ctx (Some r) 60000 = Inr P \<longrightarrow>
        \<not> isl (fst (applyCommit validateLink c cid ctx (Some s)))) \<and>
   (\<forall>ctx'. ipfs_dag_get ctx' (Some r) 60000 = ipfs_dag_get ctx (Some r) 60000 \<longrightarrow>
        applyCommit validateLink c cid ctx' (Some s) = applyCommit validateLink c cid ctx (Some s)) \<and>
   IPFS_GET_TIMEOUT = 60 * 1000"
proof (intro conjI allI impI)
  assume r: "proof_ref c = Some r"
  have t: "IPFS_GET_TIMEOUT = 60000"
    by (simp add: IPFS_GET_TIMEOUT_def)
  show "IPFS_GET_TIMEOUT = 60 * 1000"
    by (simp add: IPFS_GET_TIMEOUT_def)
  show "(fst (applyCommit validateLink c cid ctx (Some s)) = Inl e) \<longleftrightarrow>
        (\<exists>m. ipfs_dag_get ctx (Some r) 60000 = Inl m \<and> e = AnchorProofUnavailableError m)" for e
    using applyAnchor_result [of ctx c cid s e] r t
    by (simp add: applyCommit_anchor [OF r])
  show "\<not> isl (fst (applyCommit validateLink c cid ctx (Some s)))"
    if "ipfs_dag_get ctx (Some r) 60000 = Inr P" for P
    using applyAnchor_returns [of ctx c P cid s] r t that
    by (simp add: applyCommit_anchor [OF r])
  show "applyCommit validateLink c cid ctx' (Some s) = applyCommit validateLink c cid ctx (Some s)"
    if "ipfs_dag_get ctx' (Some r) 60000 = ipfs_dag_get ctx (Some r) 60000" for ctx'
    using applyAnchor_same_fetch [of ctx' c ctx cid s] r t that
    by (simp add: applyCommit_anchor [OF r])
qed

theorem applyAnchor_fetch_witness:
  "\<not> isl (fst (applyCommit ex_validateLink ex_anchor ''cid2'' ex_context (Some ex_state1))) \<and>
   fst (applyCommit ex_validateLink (ex_anchor\<lparr> proof_ref := Some ''missing'' \<rparr>) ''cid2''
          ex_context (Some ex_state1)) = Inl (AnchorProofUnavailableError ''timeout'')"
proof -
  have r1: "proof_ref ex_anchor = Some ''proof-cid''"
    by (simp add: ex_anchor_def)
  have g1: "ipfs_dag_get ex_context (Some ''proof-cid'') 60000 = Inr ex_anchor_proof"
    by (simp add: ex_context_def)
  have r2: "proof_ref (ex_anchor\<lparr> proof_ref := Some ''missing'' \<rparr>) = Some ''missing''"
    by simp
  have g2: "ipfs_dag_get ex_context (Some ''missing'') 60000 = Inl ''timeout''"
    by (simp add: ex_context_def)
  note w1 = applyAnchor_fetch [OF r1, of ex_validateLink "''cid2''" ex_context ex_state1]
  note w2 = applyAnchor_fetch [OF r2, of ex_validateLink "''cid2''" ex_context ex_state1]
  have "\<not> isl (fst (applyCommit ex_validateLink ex_anchor ''cid2'' ex_context (Some ex_state1)))"
    using w1 [THEN conjunct2, THEN conjunct1] g1 by blast
  moreover have "fst (applyCommit ex_validateLink (ex_anchor\<lparr> proof_ref := Some ''missing'' \<rparr>)
      ''cid2'' ex_context (Some ex_state1)) = Inl (AnchorProofUnavailableError ''timeout'')"
    using w2 [THEN conjunct1] g2 by blast
  ultimately show ?thesis by simp
qed

subsection \<open>Sequences of commits\<close>

lemma ex_step0:
  "fst (applyCommit ex_validateLink ex_genesis ''cid0'' ex_context None) = Inr ex_state0"
  by (simp add: applyCommit_def applyGenesis_def ex_defs)

lemma ex_step1:
  "fst (applyCommit ex_validateLink (ex_signed ''abc-100'') ''cid1'' ex_context (Some ex_state0)) =
     Inr ex_state1"
  using lower_example
  by (simp add: applyCommit_def applySigned_def proofTooOld_def controllerDiffers_def
      proof_account_def truthy_def log_push_def ex_defs)

lemma ex_step2:
  "fst (applyCommit ex_validateLink ex_anchor ''cid2'' ex_context (Some ex_state1)) = Inr ex_state2"
  by (simp add: applyCommit_def applyAnchor_def truthy_def log_push_def IPFS_GET_TIMEOUT_def
      ex_defs)

lemma ex_step3:
  "fst (applyCommit ex_validateLink (ex_signed ''abc-200-clear'') ''cid3'' ex_context
          (Some ex_state2)) = Inr ex_state3"
  using lower_same
  by (simp add: applyCommit_def applySigned_def proofTooOld_def controllerDiffers_def
      proof_account_def truthy_def log_push_def ex_defs)

lemma ex_state2_reached:
  "applyCommits ex_validateLink
     [(ex_genesis, ''cid0'', ex_context),
      (ex_signed ''abc-100'', ''cid1'', ex_context),
      (ex_anchor, ''cid2'', ex_context)] None = Inr (Some ex_state2)"
  by (simp add: ex_step0 ex_step1 ex_step2)

lemma ex_state3_reached:
  "applyCommits ex_validateLink
     [(ex_genesis, ''cid0'', ex_context),
      (ex_signed ''abc-100'', ''cid1'', ex_context),
      (ex_anchor, ''cid2'', ex_context),
      (ex_signed ''abc-200-clear'', ''cid3'', ex_context)] None = Inr (Some ex_state3)"
  by (simp add: ex_step0 ex_step1 ex_step2 ex_step3)

lemma applySigned_log:
  "fst (applySigned validateLink c cid s) = Inr s' \<Longrightarrow>
   log s' = log s @ [\<lparr> entry_cid = cid, entry_type = CommitType_SIGNED \<rparr>]"
  by (auto simp: applySigned_def Let_def log_push_def split: sum.splits option.splits bool.splits)

lemma applyAnchor_log:
  "fst (applyAnchor ctx c cid s) = Inr s' \<Longrightarrow>
   log s' = log s @ [\<lparr> entry_cid = cid, entry_type = CommitType_ANCHOR \<rparr>]"
  by (auto simp: applyAnchor_def Let_def log_push_def split: sum.splits)

lemma applyGenesis_log:
  "applyGenesis c cid = Inr s' \<Longrightarrow> log s' = [\<lparr> entry_cid = cid, entry_type = CommitType_GENESIS \<rparr>]"
  by (auto simp: applyGenesis_def split: if_splits option.splits list.splits)

lemma applyCommit_log:
  "fst (applyCommit validateLink c cid ctx (Some s)) = Inr s' \<Longrightarrow>
   log s' = log s @ [later_entry (c, cid, ctx)]"
  by (auto simp: applyCommit_def later_entry_def split: if_splits
           dest: applySigned_log applyAnchor_log)

lemma applyCommits_log:
  "applyCommits validateLink steps (Some s0) = Inr (Some s) \<Longrightarrow>
   log s = log s0 @ map later_entry steps"
proof (induction steps arbitrary: s0)
  case Nil
  then show ?case by simp
next
  case (Cons st steps)
  obtain c cid ctx where st: "st = (c, cid, ctx)"
    by (cases st) auto
  from Cons.prems st obtain s1 where
    s1: "fst (applyCommit validateLink c cid ctx (Some s0)) = Inr s1" and
    rest: "applyCommits validateLink steps (Some s1) = Inr (Some s)"
    by (auto split: sum.splits)
  from applyCommit_log [OF s1] Cons.IH [OF rest] st show ?case
    by simp
qed
text \<open>
  C8. When a list of commits is applied with success, starting without a state, the log
  of the final state has one entry per commit, in the order of application: the
  genesis entry, then for every later commit its CID with the kind \<^verbatim>\<open>ANCHOR\<close> when it
  carries a proof reference and \<^verbatim>\<open>SIGNED\<close> otherwise. Each successful application
  returns the prior log with exactly that one entry added at the end.
\<close>

theorem applyCommits_log_grows:
  "(applyCommits validateLink steps None = Inr (Some s) \<longrightarrow>
      length (log s) = length steps \<and> log s = entries steps) \<and>
   (fst (applyCommit validateLink c cid ctx None) = Inr s1 \<longrightarrow>
      log s1 = [\<lparr> entry_cid = cid, entry_type = CommitType_GENESIS \<rparr>]) \<and>
   (fst (applyCommit validateLink c cid ctx (Some s0)) = Inr s1 \<longrightarrow>
      log s1 = log s0 @
        [\<lparr> entry_cid = cid,
           entry_type = (if proof_ref c \<noteq> None then CommitType_ANCHOR else CommitType_SIGNED) \<rparr>])"
proof (intro conjI impI)
  assume run: "applyCommits validateLink steps None = Inr (Some s)"
  then obtain c0 cid0 ctx0 rest where steps: "steps = (c0, cid0, ctx0) # rest"
    by (cases steps) auto
  from run steps obtain g where
    g: "applyGenesis c0 cid0 = Inr g" and
    rest: "applyCommits validateLink rest (Some g) = Inr (Some s)"
    by (auto simp: applyCommit_def split: sum.splits)
  from applyGenesis_log [OF g] applyCommits_log [OF rest]
  have "log s = entries steps"
    by (simp add: steps entries_def)
  then show "length (log s) = length steps" and "log s = entries steps"
    by (simp_all add: steps entries_def)
next
  assume "fst (applyCommit validateLink c cid ctx None) = Inr s1"
  then show "log s1 = [\<lparr> entry_cid = cid, entry_type = CommitType_GENESIS \<rparr>]"
    by (simp add: applyCommit_def applyGenesis_log)
next
  assume "fst (applyCommit validateLink c cid ctx (Some s0)) = Inr s1"
  from applyCommit_log [OF this]
  show "log s1 = log s0 @
        [\<lparr> entry_cid = cid,
           entry_type = (if proof_ref c \<noteq> None then CommitType_ANCHOR else CommitType_SIGNED) \<rparr>]"
    by (simp add: later_entry_def)
qed

theorem applyCommits_log_grows_witness:
  "applyCommits ex_validateLink
     [(ex_genesis, ''cid0'', ex_context),
      (ex_signed ''abc-100'', ''cid1'', ex_context),
      (ex_anchor, ''cid2'', ex_context)] None = Inr (Some ex_state2) \<and>
   length (log ex_state2) = 3 \<and>
   log ex_state2 =
     [\<lparr> entry_cid = ''cid0'', entry_type = CommitType_GENESIS \<rparr>,
      \<lparr> entry_cid = ''cid1'', entry_type = CommitType_SIGNED \<rparr>,
      \<lparr> entry_cid = ''cid2'', entry_type = CommitType_ANCHOR \<rparr>]"
  using
    applyCommits_log_grows [of ex_validateLink
      "[(ex_genesis, ''cid0'', ex_context),
        (ex_signed ''abc-100'', ''cid1'', ex_context),
        (ex_anchor, ''cid2'', ex_context)]" ex_state2, THEN conjunct1]
    ex_state2_reached
  by (simp add: entries_def later_entry_def ex_genesis_def ex_signed_def ex_anchor_def)

subsection \<open>Dispatch\<close>

lemma applySigned_rejects_unusable:
  "\<forall>p. validateLink (data c) \<noteq> Inr (Some p) \<Longrightarrow> isl (fst (applySigned validateLink c cid s))"
  by (auto simp: applySigned_def split: sum.splits option.splits)
text \<open>
  C9, as amended. \<open>applyCommit\<close> does not check the shape of a commit. With a prior
  state, a commit without a proof reference is applied as a signed commit, so it is
  rejected whenever the verifier returns no proof for its payload; a commit with a
  proof reference is applied as an anchor commit whatever else it carries, and
  succeeds whenever the fetch does. Without a prior state the genesis rules apply,
  whatever proof reference the commit carries.
\<close>

theorem applyCommit_dispatch:
  "(proof_ref c = None \<and> (\<forall>p. validateLink (data c) \<noteq> Inr (Some p)) \<longrightarrow>
      isl (fst (applyCommit validateLink c cid ctx (Some s)))) \<and>
   (proof_ref c \<noteq> None \<and> proof_ref c' = proof_ref c \<longrightarrow>
      applyCommit validateLink c' cid ctx (Some s) = applyCommit validateLink c cid ctx (Some s)) \<and>
   (proof_ref c \<noteq> None \<and> ipfs_dag_get ctx (proof_ref c) IPFS_GET_TIMEOUT = Inr P \<longrightarrow>
      \<not> isl (fst (applyCommit validateLink c cid ctx (Some s)))) \<and>
   applyCommit validateLink (c\<lparr> proof_ref := r \<rparr>) cid ctx None =
     applyCommit validateLink c cid ctx None"
proof (intro conjI impI)
  assume "proof_ref c = None \<and> (\<forall>p. validateLink (data c) \<noteq> Inr (Some p))"
  then show "isl (fst (applyCommit validateLink c cid ctx (Some s)))"
    using applySigned_rejects_unusable [of validateLink c cid s]
    by (simp add: applyCommit_def)
next
  assume "proof_ref c \<noteq> None \<and> proof_ref c' = proof_ref c"
  then show "applyCommit validateLink c' cid ctx (Some s) =
      applyCommit validateLink c cid ctx (Some s)"
    by (simp add: applyCommit_def applyAnchor_def)
next
  assume "proof_ref c \<noteq> None \<and> ipfs_dag_get ctx (proof_ref c) IPFS_GET_TIMEOUT = Inr P"
  then show "\<not> isl (fst (applyCommit validateLink c cid ctx (Some s)))"
    by (simp add: applyCommit_def applyAnchor_def Let_def)
next
  show "applyCommit validateLink (c\<lparr> proof_ref := r \<rparr>) cid ctx None =
     applyCommit validateLink c cid ctx None"
    by (simp add: applyCommit_def applyGenesis_def)
qed

theorem applyCommit_dispatch_witness:
  "isl (fst (applyCommit ex_validateLink ex_genesis ''cid1'' ex_context (Some ex_state0))) \<and>
   isl (fst (applyCommit ex_validateLink (ex_signed ''unknown'') ''cid1'' ex_context (Some ex_state0))) \<and>
   applyCommit ex_validateLink ex_both ''cid2'' ex_context (Some ex_state1) =
     applyCommit ex_validateLink ex_anchor ''cid2'' ex_context (Some ex_state1) \<and>
   \<not> isl (fst (applyCommit ex_validateLink ex_anchor ''cid2'' ex_context (Some ex_state1)))"
proof -
  note w1 = applyCommit_dispatch [of ex_genesis ex_validateLink "''cid1''" ex_context ex_state0,
      THEN conjunct1]
  note w2 = applyCommit_dispatch [of "ex_signed ''unknown''" ex_validateLink "''cid1''" ex_context
      ex_state0, THEN conjunct1]
  note w3 = applyCommit_dispatch [of ex_anchor ex_validateLink "''cid2''" ex_context ex_state1
      ex_both ex_anchor_proof, THEN conjunct2]
  have "isl (fst (applyCommit ex_validateLink ex_genesis ''cid1'' ex_context (Some ex_state0)))"
    using w1 by (simp add: ex_genesis_def ex_validateLink_def)
  moreover have "isl (fst (applyCommit ex_validateLink (ex_signed ''unknown'') ''cid1'' ex_context
      (Some ex_state0)))"
    using w2 by (simp add: ex_signed_def ex_validateLink_def)
  moreover have "applyCommit ex_validateLink ex_both ''cid2'' ex_context (Some ex_state1) =
     applyCommit ex_validateLink ex_anchor ''cid2'' ex_context (Some ex_state1)"
    using w3 [THEN conjunct1] by (simp add: ex_both_def ex_anchor_def)
  moreover have "\<not> isl (fst (applyCommit ex_validateLink ex_anchor ''cid2'' ex_context
      (Some ex_state1)))"
    using w3 [THEN conjunct2, THEN conjunct1]
    by (simp add: ex_anchor_def ex_context_def ex_anchor_proof_def IPFS_GET_TIMEOUT_def)
  ultimately show ?thesis by blast
qed

text \<open>
  C9 as stated fails: \<open>ex_both\<close> carries a payload together with a proof reference, which
  is none of the three shapes of the specification, and it is applied as an anchor
  commit.
\<close>

theorem applyCommit_unrecognized_shape_counterexample:
  "\<not> spec_recognized_shape ex_both \<and>
   fst (applyCommit ex_validateLink ex_both ''cid2'' ex_context (Some ex_state1)) = Inr ex_state2"
  by (simp add: spec_recognized_shape_def applyCommit_def applyAnchor_def truthy_def log_push_def
      IPFS_GET_TIMEOUT_def ex_defs)

subsection \<open>Reachable states\<close>

lemma applyCommit_result_fields:
  "fst (applyCommit validateLink c cid ctx state) = Inr s \<Longrightarrow>
   (anchorStatus s = ANCHORED \<longrightarrow> (\<exists>ap. anchorProof s = Some ap)) \<and>
   (signature s \<noteq> SignatureStatus_GENESIS \<and> anchorStatus s \<noteq> ANCHORED \<longrightarrow>
      (\<exists>n m t. next_st s = Some n \<and> next_metadata n = Some m \<and> lastUpdate m = Some t))"
  by (cases state)
     (auto simp: applyCommit_def applyGenesis_def applySigned_def applyAnchor_def Let_def
           split: if_splits sum.splits option.splits list.splits bool.splits)

lemma reachable_fields:
  "reachable validateLink s \<Longrightarrow>
   (anchorStatus s = ANCHORED \<longrightarrow> (\<exists>ap. anchorProof s = Some ap)) \<and>
   (signature s \<noteq> SignatureStatus_GENESIS \<and> anchorStatus s \<noteq> ANCHORED \<longrightarrow>
      (\<exists>n m t. next_st s = Some n \<and> next_metadata n = Some m \<and> lastUpdate m = Some t))"
  by (induction rule: reachable.induct) (rule applyCommit_result_fields, assumption)+
text \<open>
  C10. In every state that successful applications produce from a genesis commit, the
  fields that the timestamp check reads exist: when the signature status is not
  \<^verbatim>\<open>GENESIS\<close> and the state is \<^verbatim>\<open>ANCHORED\<close> there is an anchor proof (whose block timestamp
  is part of the object), and when the signature status is not \<^verbatim>\<open>GENESIS\<close> and the state
  is not \<^verbatim>\<open>ANCHORED\<close> there is a pending update whose metadata has \<^verbatim>\<open>lastUpdate\<close>. So the
  check never throws on such a state.
\<close>

theorem reachable_staleness_fields:
  "reachable validateLink s \<Longrightarrow>
   (signature s \<noteq> SignatureStatus_GENESIS \<and> anchorStatus s = ANCHORED \<longrightarrow>
      (\<exists>ap. anchorProof s = Some ap)) \<and>
   (signature s \<noteq> SignatureStatus_GENESIS \<and> anchorStatus s \<noteq> ANCHORED \<longrightarrow>
      (\<exists>n m t. next_st s = Some n \<and> next_metadata n = Some m \<and> lastUpdate m = Some t)) \<and>
   (\<forall>p. \<exists>b. proofTooOld s p = Inr b)"
proof -
  assume "reachable validateLink s"
  from reachable_fields [OF this]
  have a: "anchorStatus s = ANCHORED \<longrightarrow> (\<exists>ap. anchorProof s = Some ap)"
    and n: "signature s \<noteq> SignatureStatus_GENESIS \<and> anchorStatus s \<noteq> ANCHORED \<longrightarrow>
      (\<exists>n m t. next_st s = Some n \<and> next_metadata n = Some m \<and> lastUpdate m = Some t)"
    by blast+
  have "\<exists>b. proofTooOld s p = Inr b" for p
    using a n by (auto simp: proofTooOld_def)
  with a n show ?thesis by blast
qed

lemma ex_state1_reachable: "reachable ex_validateLink ex_state1"
  by (rule reachable.step [OF reachable.genesis, OF ex_step0 ex_step1])

lemma ex_state2_reachable: "reachable ex_validateLink ex_state2"
  by (rule reachable.step [OF ex_state1_reachable ex_step2])

theorem reachable_staleness_fields_witness:
  "reachable ex_validateLink ex_state1 \<and>
   (\<exists>n m t. next_st ex_state1 = Some n \<and> next_metadata n = Some m \<and> lastUpdate m = Some t) \<and>
   reachable ex_validateLink ex_state2 \<and>
   (\<exists>ap. anchorProof ex_state2 = Some ap)"
proof -
  have s1: "signature ex_state1 \<noteq> SignatureStatus_GENESIS \<and> anchorStatus ex_state1 \<noteq> ANCHORED"
    by (simp add: ex_state1_def)
  have s2: "signature ex_state2 \<noteq> SignatureStatus_GENESIS \<and> anchorStatus ex_state2 = ANCHORED"
    by (simp add: ex_state2_def)
  from reachable_staleness_fields [OF ex_state1_reachable] s1
    reachable_staleness_fields [OF ex_state2_reachable] s2
    ex_state1_reachable ex_state2_reachable
  show ?thesis by blast
qed

end
